theory Spec2Isabelle
  imports Main
begin

unbundle bit_operations_syntax

section \<open>Errors, integers and the object store's interface\<close>

text \<open>
  The error values the package returns. \<open>EOF\<close> is \<open>io.EOF\<close>, \<open>ErrInvalid\<close> is
  \<open>os.ErrInvalid\<close>, \<open>EISDIR\<close> is \<open>syscall.EISDIR\<close>; the three \<open>errors.New\<close> values of the
  package are \<open>InvalidWhence\<close> ("Invalid argument for whence"), \<open>InvalidOffset\<close>
  ("Invalid offset") and \<open>InvalidType\<close> ("Invalid type"). Every error handed up by the git
  library is a \<open>StoreError\<close> with the library's code: a value of the library is never one
  of the package's own error values. \<open>Panic\<close> is a run-time panic (a method called on a
  \<open>nil\<close> pointer).
\<close>

datatype error =
    EOF
  | ErrInvalid
  | EISDIR
  | InvalidWhence
  | InvalidOffset
  | InvalidType
  | StoreError nat
  | Panic

text \<open>Go's \<open>int64\<close>: a result of \<open>+\<close> or \<open>-\<close> wraps around modulo \<open>2 ^ 64\<close>.\<close>

definition int64 :: "int \<Rightarrow> int" where
  "int64 x = (x + 2 ^ 63) mod 2 ^ 64 - 2 ^ 63"

definition is_int64 :: "int \<Rightarrow> bool" where
  "is_int64 x = (- (2 ^ 63) \<le> x \<and> x < 2 ^ 63)"

text \<open>The values of \<open>whence\<close>: \<open>os.SEEK_SET\<close>, \<open>os.SEEK_CUR\<close> and \<open>os.SEEK_END\<close>.\<close>

abbreviation (input) SEEK_SET :: int where "SEEK_SET \<equiv> 0"
abbreviation (input) SEEK_CUR :: int where "SEEK_CUR \<equiv> 1"
abbreviation (input) SEEK_END :: int where "SEEK_END \<equiv> 2"

text \<open>
  The \<open>io.ReadCloser\<close> that \<open>Blob().Data()\<close> returns, a forward-only stream of the git
  library: \<open>rest\<close> is the content not yet delivered, one \<open>Read\<close> delivers at most
  \<open>Suc (chunk s)\<close> bytes (a reader may return fewer bytes than the buffer holds), and
  \<open>close_err\<close> is what \<open>Close\<close> returns. \<open>stream_Read s k\<close> is \<open>Read\<close> into a buffer of
  length \<open>k\<close>: the stream after it, the bytes delivered and the error.
\<close>

record stream =
  rest :: string
  chunk :: nat
  close_err :: "nat option"

definition stream_Read :: "stream \<Rightarrow> nat \<Rightarrow> stream \<times> string \<times> error option" where
  "stream_Read s k =
     (if rest s = [] then (s, [], Some EOF)
      else (s\<lparr>rest := drop (min k (Suc (chunk s))) (rest s)\<rparr>,
            take (min k (Suc (chunk s))) (rest s), None))"

datatype ObjectType = ObjectCommit | ObjectTree | ObjectBlob | ObjectTag

text \<open>
  A \<open>g.TreeEntry\<close> of the git library, as far as the package uses it: its \<open>Type\<close>, what
  its methods \<open>Name()\<close>, \<open>Size()\<close>, \<open>Mode()\<close>, \<open>ModTime()\<close> and \<open>IsDir()\<close> return (a time
  is a number), and what \<open>Blob().Data()\<close> returns (an error of the library, or a fresh
  stream over the blob's content, the same at every call: the objects are immutable).
\<close>

record TreeEntry =
  Name :: string
  Type :: ObjectType
  Size :: int
  Mode :: nat
  ModTime :: int
  IsDir :: bool
  Data :: "nat + stream"

text \<open>
  A \<open>g.TreeScanner\<close>: the entries not yet scanned, the error the enumeration ends with
  (\<open>None\<close> when it ends because the tree has no more entries), and what \<open>Err()\<close> returns
  now. \<open>TreeScanner_Scan\<close> is \<open>Scan()\<close> with the \<open>TreeEntry()\<close> that follows a successful
  scan: \<open>None\<close> is \<open>Scan()\<close> returning \<open>false\<close>.
\<close>

record TreeScanner =
  pending :: "TreeEntry list"
  fails :: "nat option"
  Err :: "nat option"

definition TreeScanner_Scan :: "TreeScanner \<Rightarrow> TreeScanner \<times> TreeEntry option" where
  "TreeScanner_Scan sc =
     (case pending sc of
        [] \<Rightarrow> (sc\<lparr>Err := fails sc\<rparr>, None)
      | e # es \<Rightarrow> (sc\<lparr>pending := es\<rparr>, Some e))"

text \<open>
  A \<open>g.Tree\<close> is known to the package by three methods: \<open>Scanner()\<close>,
  \<open>GetTreeEntryByPath(name)\<close> and \<open>SubTree(name)\<close>, each of which may return an error of
  the library.
\<close>

datatype Tree =
  Tree (Scanner: "nat + TreeScanner")
       (GetTreeEntryByPath: "string \<Rightarrow> nat + TreeEntry")
       (SubTree: "string \<Rightarrow> nat + Tree")

text \<open>
  The calls made to the git library for a blob's content or a tree's entries, in order (a
  record of the effects). A call of an entry's own methods, such as \<open>Size()\<close>, is not
  recorded.
\<close>

datatype store_call =
    CallData
  | CallRead nat
  | CallClose
  | CallScanner
  | CallGetTreeEntryByPath string
  | CallSubTree string

section \<open>File metadata\<close>

text \<open>
  \<open>os.FileInfo\<close> has three implementations here: \<open>rootFileInfo\<close>, a tree entry of the
  library itself, and \<open>modTimeFileInfo\<close>, which embeds a \<open>FileInfo\<close> and overrides
  \<open>ModTime\<close>. \<open>rootFileInfo.ModTime\<close> is \<open>time.Now()\<close>, the parameter \<open>now\<close>. \<open>os.ModeDir\<close>
  is bit 31 of a mode, and \<open>0755\<close> is \<open>493\<close>.
\<close>

datatype FileInfo = rootFileInfo | entryFileInfo TreeEntry | modTimeFileInfo FileInfo int

definition ModeDir :: nat where
  "ModeDir = 2 ^ 31"

fun FileInfo_Name :: "FileInfo \<Rightarrow> string" where
  "FileInfo_Name rootFileInfo = []"
| "FileInfo_Name (entryFileInfo e) = Name e"
| "FileInfo_Name (modTimeFileInfo i t) = FileInfo_Name i"

fun FileInfo_Size :: "FileInfo \<Rightarrow> int" where
  "FileInfo_Size rootFileInfo = 0"
| "FileInfo_Size (entryFileInfo e) = Size e"
| "FileInfo_Size (modTimeFileInfo i t) = FileInfo_Size i"

fun FileInfo_Mode :: "FileInfo \<Rightarrow> nat" where
  "FileInfo_Mode rootFileInfo = ModeDir OR 493"
| "FileInfo_Mode (entryFileInfo e) = Mode e"
| "FileInfo_Mode (modTimeFileInfo i t) = FileInfo_Mode i"

fun FileInfo_ModTime :: "int \<Rightarrow> FileInfo \<Rightarrow> int" where
  "FileInfo_ModTime now rootFileInfo = now"
| "FileInfo_ModTime now (entryFileInfo e) = ModTime e"
| "FileInfo_ModTime now (modTimeFileInfo i t) = t"

fun FileInfo_IsDir :: "FileInfo \<Rightarrow> bool" where
  "FileInfo_IsDir rootFileInfo = True"
| "FileInfo_IsDir (entryFileInfo e) = IsDir e"
| "FileInfo_IsDir (modTimeFileInfo i t) = FileInfo_IsDir i"

section \<open>The file handle over a blob\<close>

text \<open>
  \<open>ghfsFile\<close>: the entry, its metadata, the backing stream (\<open>None\<close> is Go's \<open>nil\<close>), the
  offset and the \<open>atEnd\<close> flag. \<open>calls\<close> is not a field of the Go struct: it records the
  calls the handle has made to the git library for the blob's content.
\<close>

record ghfsFile =
  entry :: TreeEntry
  fi :: FileInfo
  rc :: "stream option"
  off :: int
  atEnd :: bool
  calls :: "store_call list"

definition NewFile :: "TreeEntry \<Rightarrow> FileInfo \<Rightarrow> ghfsFile" where
  "NewFile e i = \<lparr>entry = e, fi = i, rc = None, off = 0, atEnd = False, calls = []\<rparr>"

text \<open>
  \<open>Read\<close> once \<open>f.rc\<close> is not \<open>nil\<close> (the stream is \<open>s\<close>): the \<open>atEnd\<close> test, then the read
  from the stream and \<open>f.off += int64(n)\<close>. The buffer is its length \<open>k\<close>; the bytes
  written into it are returned. \<open>ghfsFile_Read\<close> is the whole method: when \<open>f.rc\<close> is \<open>nil\<close>
  it asks the library for the stream first (and \<open>f.rc\<close> stays \<open>nil\<close> when the library
  returns an error).
\<close>

definition Read_stream :: "ghfsFile \<Rightarrow> stream \<Rightarrow> nat \<Rightarrow> ghfsFile \<times> string \<times> error option" where
  "Read_stream f s k =
     (if atEnd f then (f, [], Some EOF)
      else (case stream_Read s k of
              (s', bs, err) \<Rightarrow>
                (f\<lparr>rc := Some s', off := int64 (off f + int (length bs)),
                   calls := calls f @ [CallRead k]\<rparr>, bs, err)))"

definition ghfsFile_Read :: "ghfsFile \<Rightarrow> nat \<Rightarrow> ghfsFile \<times> string \<times> error option" where
  "ghfsFile_Read f k =
     (case rc f of
        None \<Rightarrow>
          (case Data (entry f) of
             Inl c \<Rightarrow> (f\<lparr>calls := calls f @ [CallData]\<rparr>, [], Some (StoreError c))
           | Inr s \<Rightarrow> Read_stream (f\<lparr>rc := Some s, calls := calls f @ [CallData]\<rparr>) s k)
      | Some s \<Rightarrow> Read_stream f s k)"

definition ghfsFile_Close :: "ghfsFile \<Rightarrow> ghfsFile \<times> error option" where
  "ghfsFile_Close f =
     (case rc f of
        None \<Rightarrow> (f\<lparr>off := 0\<rparr>, None)
      | Some s \<Rightarrow>
          (f\<lparr>rc := None, off := 0, calls := calls f @ [CallClose]\<rparr>,
           map_option StoreError (close_err s)))"


definition ghfsFile_Stat :: "ghfsFile \<Rightarrow> FileInfo \<times> error option" where
  "ghfsFile_Stat f = (fi f, None)"

lemma Read_progress:
  "ghfsFile_Read f k = (f', bs, None) \<Longrightarrow> 0 < k \<Longrightarrow> bs \<noteq> []"
  by (auto simp: ghfsFile_Read_def Read_stream_def stream_Read_def
      split: option.splits sum.splits if_splits)

text \<open>
  \<open>io.CopyN(ioutil.Discard, f, n)\<close> is \<open>io.Copy(ioutil.Discard, io.LimitReader(f, n))\<close>,
  and \<open>io.Copy\<close> hands the reader to \<open>Discard.ReadFrom\<close>: a loop that reads into a buffer
  of 8192 bytes until an error, with \<open>io.EOF\<close> turned into \<open>nil\<close>. The \<open>LimitedReader\<close>
  returns \<open>io.EOF\<close> when its count \<open>N\<close> is not positive, and cuts the buffer to \<open>N\<close> bytes
  otherwise. \<open>count\<close> is the number of bytes discarded so far.
\<close>

function discard_ReadFrom :: "ghfsFile \<Rightarrow> int \<Rightarrow> int \<Rightarrow> ghfsFile \<times> int \<times> error option" where
  "discard_ReadFrom f N count =
     (if N \<le> 0 then (f, count, None)
      else (case ghfsFile_Read f (nat (min 8192 N)) of
              (f', bs, Some e) \<Rightarrow>
                (f', count + int (length bs), if e = EOF then None else Some e)
            | (f', bs, None) \<Rightarrow>
                discard_ReadFrom f' (N - int (length bs)) (count + int (length bs))))"
  by pat_completeness auto
termination
  apply (relation "measure (\<lambda>(f, N, count). nat N)")
   apply simp
  apply (auto dest!: sym [THEN Read_progress])
  done

definition CopyN :: "ghfsFile \<Rightarrow> int \<Rightarrow> ghfsFile \<times> int \<times> error option" where
  "CopyN f n =
     (case discard_ReadFrom f n 0 of
        (f', written, err) \<Rightarrow>
          if written = n then (f', n, None)
          else if written < n \<and> err = None then (f', written, Some EOF)
          else (f', written, err))"

text \<open>
  \<open>Seek\<close>, in two parts as the source has two \<open>switch\<close> statements: \<open>ghfsFile_Seek\<close> computes
  \<open>noff\<close> from \<open>whence\<close>, and \<open>Seek_noff\<close> is the rest of the function from
  \<open>f.atEnd = false\<close> on.
\<close>

definition Seek_noff :: "ghfsFile \<Rightarrow> int \<Rightarrow> ghfsFile \<times> int \<times> error option" where
  "Seek_noff f0 noff =
     (let f = f0\<lparr>atEnd := False\<rparr> in
      if noff < 0 then (f, 0, Some InvalidOffset)
      else if noff < off f then CopyN (fst (ghfsFile_Close f)) noff
      else (case CopyN f (int64 (noff - off f)) of
              (f', written, err) \<Rightarrow> (f', off f', err)))"

definition ghfsFile_Seek :: "ghfsFile \<Rightarrow> int \<Rightarrow> int \<Rightarrow> ghfsFile \<times> int \<times> error option" where
  "ghfsFile_Seek f offset whence0 =
     (let whence = (if whence0 = SEEK_CUR \<and> atEnd f then SEEK_END else whence0) in
      if whence = SEEK_SET then Seek_noff f offset
      else if whence = SEEK_CUR then Seek_noff f (int64 (off f + offset))
      else if whence = SEEK_END then
        (if offset = 0 then (f\<lparr>atEnd := True\<rparr>, Size (entry f), None)
         else Seek_noff f (int64 (Size (entry f) + offset)))
      else (f, 0, Some InvalidWhence))"

section \<open>The directory handle over a tree\<close>

record ghfsDir =
  tree :: Tree
  dir_fi :: FileInfo
  scanner :: TreeScanner

definition NewDir :: "Tree \<Rightarrow> FileInfo \<Rightarrow> error + ghfsDir" where
  "NewDir t i =
     (case Scanner t of
        Inl c \<Rightarrow> Inl (StoreError c)
      | Inr sc \<Rightarrow> Inr \<lparr>tree = t, dir_fi = i, scanner = sc\<rparr>)"


definition ghfsDir_Close :: "ghfsDir \<Rightarrow> ghfsDir \<times> error option" where
  "ghfsDir_Close d = (d, None)"

text \<open>The loop of \<open>Readdir\<close>: \<open>for c := 0; c < count; c++\<close>, left when \<open>Scan()\<close> is false.\<close>

function Readdir_loop ::
  "TreeScanner \<Rightarrow> int \<Rightarrow> int \<Rightarrow> FileInfo list \<Rightarrow> TreeScanner \<times> FileInfo list" where
  "Readdir_loop sc c count ret =
     (if c < count then
        (case TreeScanner_Scan sc of
           (sc', None) \<Rightarrow> (sc', ret)
         | (sc', Some e) \<Rightarrow> Readdir_loop sc' (c + 1) count (ret @ [entryFileInfo e]))
      else (sc, ret))"
  by pat_completeness auto
termination
  by (relation "measure (\<lambda>(sc, c, count, ret). nat (count - c))") auto

definition ghfsDir_Readdir :: "ghfsDir \<Rightarrow> int \<Rightarrow> ghfsDir \<times> FileInfo list \<times> error option" where
  "ghfsDir_Readdir d count =
     (case Readdir_loop (scanner d) 0 count [] of
        (sc, ret) \<Rightarrow> (d\<lparr>scanner := sc\<rparr>, ret, map_option StoreError (Err sc)))"


definition ghfsDir_Stat :: "ghfsDir \<Rightarrow> FileInfo \<times> error option" where
  "ghfsDir_Stat d = (dir_fi d, None)"

section \<open>The file system over a commit's tree\<close>

text \<open>
  An \<open>http.File\<close> is one of the two handles. \<open>ghfs\<close> holds the tree it serves and, of the
  commit, the one field \<open>Open\<close> reads: \<open>commit.Author.When\<close>.
\<close>

datatype File = Dir ghfsDir | Reg ghfsFile

record ghfs =
  commit_Author_When :: int
  fs_tree :: Tree

text \<open>
  \<open>Open\<close> returns the calls it made to the library beside its result. \<open>NewFile\<close> returns a
  \<open>nil\<close> error always, so the model's \<open>NewFile\<close> returns the handle alone.
\<close>

definition Open :: "ghfs \<Rightarrow> string \<Rightarrow> store_call list \<times> (error + File)" where
  "Open fs name0 =
     (let name = (case name0 of c # cs \<Rightarrow> if c = CHR ''/'' then cs else name0 | [] \<Rightarrow> name0) in
      if name = [] then ([CallScanner], map_sum id Dir (NewDir (fs_tree fs) rootFileInfo))
      else
        (case GetTreeEntryByPath (fs_tree fs) name of
           Inl c \<Rightarrow> ([CallGetTreeEntryByPath name], Inl (StoreError c))
         | Inr e \<Rightarrow>
             (let i = modTimeFileInfo (entryFileInfo e) (commit_Author_When fs) in
              case Type e of
                ObjectTree \<Rightarrow>
                  (case SubTree (fs_tree fs) name of
                     Inl c \<Rightarrow>
                       ([CallGetTreeEntryByPath name, CallSubTree name], Inl (StoreError c))
                   | Inr stree \<Rightarrow>
                       ([CallGetTreeEntryByPath name, CallSubTree name, CallScanner],
                        map_sum id Dir (NewDir stree i)))
              | ObjectBlob \<Rightarrow> ([CallGetTreeEntryByPath name], Inr (Reg (NewFile e i)))
              | _ \<Rightarrow> ([CallGetTreeEntryByPath name], Inl InvalidType))))"

section \<open>The directory handle of the libgit2 generation\<close>

text \<open>
  The earlier generation of the package, over \<open>git2go\<close>, reads a directory by index. A tree
  entry there has a name, a file mode (\<open>FilemodeTree\<close> is \<open>040000\<close>, octal, for a tree) and an
  id; \<open>LookupBlob\<close> is what
  \<open>tree.Owner().LookupBlob(entry.Id)\<close> returns for it, an error or the blob, known by its
  \<open>Size()\<close>. A tree is its entries: \<open>EntryCount()\<close> is their number and \<open>EntryByIndex\<close>
  the indexing. \<open>Close\<close> sets \<open>d.tree\<close> to \<open>nil\<close>, here \<open>None\<close>; a method called on it
  afterwards panics. Of this generation the directory handle alone is modelled: its file
  handle reads the stream of an object id that \<open>NewFile\<close> never sets.
\<close>

definition FilemodeTree :: int where
  "FilemodeTree = 16384"

record git2go_TreeEntry =
  entry_Name :: string
  Filemode :: int
  LookupBlob :: "nat + int"

record ghfsFileInfo =
  fi_name :: string
  fi_mode :: nat
  fi_size :: int

definition NewFileInfo :: "git2go_TreeEntry \<Rightarrow> ghfsFileInfo" where
  "NewFileInfo e =
     (let ret = \<lparr>fi_name = entry_Name e, fi_mode = 0, fi_size = 0\<rparr> in
      if Filemode e = FilemodeTree then ret\<lparr>fi_mode := ModeDir\<rparr>
      else (case LookupBlob e of Inr sz \<Rightarrow> ret\<lparr>fi_size := sz\<rparr> | Inl c \<Rightarrow> ret))"

record git2go_ghfsDir =
  git2go_tree :: "git2go_TreeEntry list option"
  git2go_fi :: ghfsFileInfo
  idx :: nat

definition git2go_Close :: "git2go_ghfsDir \<Rightarrow> git2go_ghfsDir \<times> error option" where
  "git2go_Close d =
     (case git2go_tree d of
        None \<Rightarrow> (d, Some Panic)
      | Some es \<Rightarrow> (d\<lparr>git2go_tree := None\<rparr>, None))"

function git2go_Readdir_loop ::
  "git2go_TreeEntry list \<Rightarrow> nat \<Rightarrow> int \<Rightarrow> ghfsFileInfo list \<Rightarrow> nat \<times> ghfsFileInfo list" where
  "git2go_Readdir_loop es i count ret =
     (if i < length es then
        (if count > 0 \<and> int (length ret) \<ge> count then (i, ret)
         else git2go_Readdir_loop es (i + 1) count (ret @ [NewFileInfo (es ! i)]))
      else (i, ret))"
  by pat_completeness auto
termination
  by (relation "measure (\<lambda>(es, i, count, ret). length es - i)") auto

definition git2go_Readdir ::
  "git2go_ghfsDir \<Rightarrow> int \<Rightarrow> git2go_ghfsDir \<times> ghfsFileInfo list \<times> error option" where
  "git2go_Readdir d count =
     (case git2go_tree d of
        None \<Rightarrow> (d, [], Some Panic)
      | Some es \<Rightarrow>
          if idx d \<ge> length es then (d, [], Some EOF)
          else (case git2go_Readdir_loop es (idx d) count [] of
                  (i, ret) \<Rightarrow> (d\<lparr>idx := i\<rparr>, ret, None)))"

section \<open>The reader's side\<close>

text \<open>
  What a handle that is not at its end has yet to deliver: the rest of its stream, or the
  whole content of the blob when no stream is open (nothing when the library cannot open
  one).
\<close>

definition remaining :: "ghfsFile \<Rightarrow> string" where
  "remaining f =
     (case rc f of
        Some s \<Rightarrow> rest s
      | None \<Rightarrow> (case Data (entry f) of Inr s \<Rightarrow> rest s | Inl c \<Rightarrow> []))"

lemma Read_measure:
  "ghfsFile_Read f (Suc k) = (f', bs, None) \<Longrightarrow>
     length (remaining f') + (if rc f' = None then 1 else 0)
       < length (remaining f) + (if rc f = None then 1 else 0)"
  by (auto simp: ghfsFile_Read_def Read_stream_def stream_Read_def remaining_def
      split: option.splits sum.splits if_splits)

text \<open>
  A caller that reads a handle forward to the end of data, as \<open>ioutil.ReadAll\<close> does:
  \<open>Read\<close> into a buffer of \<open>Suc k\<close> bytes until it returns an error, keeping the bytes.
\<close>

function ReadAll :: "ghfsFile \<Rightarrow> nat \<Rightarrow> string" where
  "ReadAll f k =
     (case ghfsFile_Read f (Suc k) of
        (f', bs, Some e) \<Rightarrow> bs
      | (f', bs, None) \<Rightarrow> bs @ ReadAll f' k)"
  by pat_completeness auto
termination
  apply (relation "measure (\<lambda>(f, k). length (remaining f) + (if rc f = None then 1 else 0))")
   apply simp
  apply (auto dest!: sym [THEN Read_measure] split: if_splits)
  done

section \<open>A snapshot to run the code on\<close>

text \<open>
  The tree of the specification's example: \<open>/a.txt\<close> holds \<open>abcd\<close> and \<open>/dir/b.txt\<close> holds
  \<open>x\<close>. The streams deliver two bytes at a time. \<open>no_tree\<close> is a tree the library fails to
  read.
\<close>

definition a_txt :: TreeEntry where
  "a_txt = \<lparr>Name = ''a.txt'', Type = ObjectBlob, Size = 4, Mode = 420, ModTime = 0,
            IsDir = False,
            Data = Inr \<lparr>rest = ''abcd'', chunk = 1, close_err = None\<rparr>\<rparr>"

definition b_txt :: TreeEntry where
  "b_txt = \<lparr>Name = ''b.txt'', Type = ObjectBlob, Size = 1, Mode = 420, ModTime = 0,
            IsDir = False,
            Data = Inr \<lparr>rest = ''x'', chunk = 1, close_err = None\<rparr>\<rparr>"

definition dir_entry :: TreeEntry where
  "dir_entry = \<lparr>Name = ''dir'', Type = ObjectTree, Size = 0, Mode = ModeDir OR 493,
                ModTime = 0, IsDir = True, Data = Inl 1\<rparr>"

definition no_tree :: Tree where
  "no_tree = Tree (Inl 2) (\<lambda>p. Inl 2) (\<lambda>p. Inl 2)"

definition sub_tree :: Tree where
  "sub_tree = Tree (Inr \<lparr>pending = [b_txt], fails = None, Err = None\<rparr>)
     (\<lambda>p. if p = ''b.txt'' then Inr b_txt else Inl 2) (\<lambda>p. Inl 2)"

definition root_tree :: Tree where
  "root_tree = Tree (Inr \<lparr>pending = [a_txt, dir_entry], fails = None, Err = None\<rparr>)
     (\<lambda>p. if p = ''a.txt'' then Inr a_txt else if p = ''dir'' then Inr dir_entry
           else if p = ''dir/b.txt'' then Inr b_txt else Inl 2)
     (\<lambda>p. if p = ''dir'' then Inr sub_tree else Inl 2)"

definition root_dir :: ghfsDir where
  "root_dir = \<lparr>tree = root_tree, dir_fi = rootFileInfo,
      scanner = \<lparr>pending = [a_txt, dir_entry], fails = None, Err = None\<rparr>\<rparr>"

definition root_dir_scanned :: ghfsDir where
  "root_dir_scanned = root_dir\<lparr>scanner := \<lparr>pending = [], fails = None, Err = None\<rparr>\<rparr>"

text \<open>
  Handles on \<open>/a.txt\<close>: as opened, after one \<open>Read\<close> into a buffer of three bytes (which
  delivers two), and after \<open>Seek(0, os.SEEK_END)\<close> on the handle as opened.
\<close>

definition a_txt_file :: ghfsFile where
  "a_txt_file = NewFile a_txt (modTimeFileInfo (entryFileInfo a_txt) 0)"

definition a_txt_read :: ghfsFile where
  "a_txt_read = fst (ghfsFile_Read a_txt_file 3)"

definition a_txt_at_end :: ghfsFile where
  "a_txt_at_end = fst (ghfsFile_Seek a_txt_file 0 SEEK_END)"

definition example_fs :: ghfs where
  "example_fs = \<lparr>commit_Author_When = 0, fs_tree = root_tree\<rparr>"

definition broken_fs :: ghfs where
  "broken_fs = \<lparr>commit_Author_When = 0, fs_tree = no_tree\<rparr>"

section \<open>Facts about the model\<close>

declare discard_ReadFrom.simps [simp del]
declare ReadAll.simps [simp del]
declare Readdir_loop.simps [simp del]
declare git2go_Readdir_loop.simps [simp del]

subsection \<open>Arithmetic of \<open>int64\<close>\<close>

lemma int64_id: "is_int64 x \<Longrightarrow> int64 x = x"
  by (simp add: is_int64_def int64_def)

lemma is_int64_int64: "is_int64 (int64 x)"
  by (simp add: is_int64_def int64_def)

lemma int64_add_left: "int64 (int64 a + b) = int64 (a + b)"
proof -
  have "(int64 a + b + 2 ^ 63) mod 2 ^ 64 = (a + b + 2 ^ 63) mod (2 ^ 64 :: int)"
    unfolding int64_def by (simp add: mod_simps algebra_simps)
  then show ?thesis
    by (simp add: int64_def)
qed

subsection \<open>One \<open>Read\<close>\<close>

lemma Read_remaining:
  assumes "ghfsFile_Read f k = (f', bs, err)" and "\<not> atEnd f"
  shows "remaining f = bs @ remaining f'" and "\<not> atEnd f'" and "entry f' = entry f"
    and "length bs \<le> k"
    and "err \<noteq> None \<Longrightarrow> bs = [] \<and> remaining f' = []"
  using assms
  by (auto simp: ghfsFile_Read_def Read_stream_def stream_Read_def remaining_def
      split: option.splits sum.splits if_splits)

lemma Read_off:
  assumes "ghfsFile_Read f k = (f', bs, err)"
  shows "int64 (off f') = int64 (off f + int (length bs))" and "length bs \<le> k"
    and "err = None \<or> err = Some EOF \<or> (\<exists>c. err = Some (StoreError c))"
  using assms
  by (auto simp: ghfsFile_Read_def Read_stream_def stream_Read_def int64_add_left [of _ 0, simplified]
      split: option.splits sum.splits if_splits)

lemma Read_is_int64:
  assumes "ghfsFile_Read f k = (f', bs, err)" and "is_int64 (off f)"
  shows "is_int64 (off f')"
  using assms
  by (auto simp: ghfsFile_Read_def Read_stream_def stream_Read_def is_int64_int64
      split: option.splits sum.splits if_splits)

lemma Read_at_end_open:
  "atEnd f \<Longrightarrow> rc f = Some s \<Longrightarrow> ghfsFile_Read f k = (f, [], Some EOF)"
  by (simp add: ghfsFile_Read_def Read_stream_def)

lemma Read_at_end_unopened:
  "atEnd f \<Longrightarrow> rc f = None \<Longrightarrow>
     ghfsFile_Read f k =
       (case Data (entry f) of
          Inl c \<Rightarrow> (f\<lparr>calls := calls f @ [CallData]\<rparr>, [], Some (StoreError c))
        | Inr s \<Rightarrow> (f\<lparr>rc := Some s, calls := calls f @ [CallData]\<rparr>, [], Some EOF))"
  by (simp add: ghfsFile_Read_def Read_stream_def split: sum.splits)

subsection \<open>The discarding loop and \<open>CopyN\<close>\<close>

lemma discard_remaining:
  "\<not> atEnd f \<Longrightarrow> discard_ReadFrom f N c = (f', c', e) \<Longrightarrow>
     remaining f' = drop (nat N) (remaining f) \<and> \<not> atEnd f' \<and> entry f' = entry f"
proof (induction f N c rule: discard_ReadFrom.induct)
  case (1 f N count)
  show ?case
  proof (cases "N \<le> 0")
    case True
    with "1.prems" show ?thesis
      by (simp add: discard_ReadFrom.simps)
  next
    case False
    obtain f1 bs err where r: "ghfsFile_Read f (nat (min 8192 N)) = (f1, bs, err)"
      by (cases "ghfsFile_Read f (nat (min 8192 N))") auto
    note R = Read_remaining [OF r "1.prems"(1)]
    show ?thesis
    proof (cases err)
      case None
      with False r "1.prems"(2)
      have d: "discard_ReadFrom f1 (N - int (length bs)) (count + int (length bs)) = (f', c', e)"
        by (simp add: discard_ReadFrom.simps [of f])
      have "remaining f' = drop (nat (N - int (length bs))) (remaining f1)
          \<and> \<not> atEnd f' \<and> entry f' = entry f1"
        using "1.IH" [OF False r [symmetric] refl None R(2) d] .
      moreover have "int (length bs) \<le> N"
        using R(4) False by simp
      then have "nat N = length bs + nat (N - int (length bs))"
        by simp
      ultimately show ?thesis
        using R(1,3) by (simp add: drop_append)
    next
      case (Some e0)
      with False r "1.prems"(2) have "f' = f1"
        by (simp add: discard_ReadFrom.simps [of f])
      with R Some show ?thesis
        by simp
    qed
  qed
qed

lemma discard_off:
  "discard_ReadFrom f N c = (f', c', e) \<Longrightarrow>
     c \<le> c' \<and> c' - c \<le> max N 0 \<and> int64 (off f') = int64 (off f + (c' - c))
     \<and> (is_int64 (off f) \<longrightarrow> is_int64 (off f'))
     \<and> (e = None \<or> (\<exists>k. e = Some (StoreError k)))"
proof (induction f N c arbitrary: f' c' e rule: discard_ReadFrom.induct)
  case (1 f N count)
  show ?case
  proof (cases "N \<le> 0")
    case True
    with "1.prems" show ?thesis
      by (simp add: discard_ReadFrom.simps)
  next
    case False
    obtain f1 bs err where r: "ghfsFile_Read f (nat (min 8192 N)) = (f1, bs, err)"
      by (cases "ghfsFile_Read f (nat (min 8192 N))") auto
    note R = Read_off [OF r]
    have le: "int (length bs) \<le> N"
      using R(2) False by simp
    show ?thesis
    proof (cases err)
      case None
      with False r "1.prems"
      have d: "discard_ReadFrom f1 (N - int (length bs)) (count + int (length bs)) = (f', c', e)"
        by (simp add: discard_ReadFrom.simps [of f])
      note IH = "1.IH" [OF False r [symmetric] refl None d]
      have "int64 (off f') = int64 (int64 (off f1) + (c' - (count + int (length bs))))"
        using IH by (simp add: int64_add_left)
      also have "\<dots> = int64 (int64 (off f + int (length bs)) + (c' - (count + int (length bs))))"
        using R(1) by simp
      also have "\<dots> = int64 (off f + (c' - count))"
        by (simp add: int64_add_left)
      finally have "int64 (off f') = int64 (off f + (c' - count))" .
      moreover have "is_int64 (off f) \<longrightarrow> is_int64 (off f')"
        using IH Read_is_int64 [OF r] by simp
      ultimately show ?thesis
        using IH le by auto
    next
      case (Some e0)
      with False r "1.prems"
      have "f' = f1" and "c' = count + int (length bs)"
        and "e = (if e0 = EOF then None else Some e0)"
        by (simp_all add: discard_ReadFrom.simps [of f])
      with R Some le Read_is_int64 [OF r] show ?thesis
        by auto
    qed
  qed
qed

lemma CopyN_remaining:
  assumes "\<not> atEnd f" and "CopyN f n = (f', w, e)"
  shows "remaining f' = drop (nat n) (remaining f) \<and> \<not> atEnd f' \<and> entry f' = entry f"
proof -
  obtain f1 c1 e1 where d: "discard_ReadFrom f n 0 = (f1, c1, e1)"
    by (cases "discard_ReadFrom f n 0") auto
  with assms(2) have "f' = f1"
    by (auto simp: CopyN_def split: if_splits)
  with discard_remaining [OF assms(1) d] show ?thesis
    by simp
qed

lemma CopyN_result:
  assumes "CopyN f n = (f', w, e)"
  shows "e = None \<or> e = Some EOF \<or> (\<exists>k. e = Some (StoreError k))"
    and "0 \<le> n \<Longrightarrow> e = None \<Longrightarrow> w = n \<and> int64 (off f') = int64 (off f + n)"
    and "is_int64 (off f) \<Longrightarrow> is_int64 (off f')"
proof -
  obtain f1 c1 e1 where d: "discard_ReadFrom f n 0 = (f1, c1, e1)"
    by (cases "discard_ReadFrom f n 0") auto
  note D = discard_off [OF d]
  from assms d have f: "f' = f1"
    by (auto simp: CopyN_def split: if_splits)
  show "e = None \<or> e = Some EOF \<or> (\<exists>k. e = Some (StoreError k))"
    using assms d D by (auto simp: CopyN_def split: if_splits)
  show "is_int64 (off f) \<Longrightarrow> is_int64 (off f')"
    using D f by simp
  show "w = n \<and> int64 (off f') = int64 (off f + n)" if "0 \<le> n" and "e = None"
    using assms d D f that by (auto simp: CopyN_def split: if_splits)
qed

subsection \<open>Reading to the end\<close>

lemma ReadAll_remaining: "\<not> atEnd f \<Longrightarrow> ReadAll f k = remaining f"
proof (induction f k rule: ReadAll.induct)
  case (1 f k)
  obtain f1 bs err where r: "ghfsFile_Read f (Suc k) = (f1, bs, err)"
    by (cases "ghfsFile_Read f (Suc k)") auto
  note R = Read_remaining [OF r "1.prems"]
  show ?case
  proof (cases err)
    case None
    then have "ReadAll f k = bs @ ReadAll f1 k"
      using r by (simp add: ReadAll.simps [of f])
    also have "ReadAll f1 k = remaining f1"
      using "1.IH" [OF r [symmetric] refl None R(2)] .
    finally show ?thesis
      using R(1) by simp
  next
    case (Some e)
    then have "ReadAll f k = bs"
      using r by (simp add: ReadAll.simps [of f])
    with R Some show ?thesis
      by simp
  qed
qed

subsection \<open>The second half of \<open>Seek\<close>\<close>

lemma Seek_noff_negative:
  "noff < 0 \<Longrightarrow> Seek_noff f noff = (f\<lparr>atEnd := False\<rparr>, 0, Some InvalidOffset)"
  by (simp add: Seek_noff_def Let_def)

lemma Seek_noff_result:
  assumes "0 \<le> noff" and "is_int64 noff" and "0 \<le> off f" and "is_int64 (off f)"
  shows "snd (snd (Seek_noff f noff)) \<noteq> Some InvalidOffset
       \<and> snd (snd (Seek_noff f noff)) \<noteq> Some InvalidWhence
       \<and> (snd (snd (Seek_noff f noff)) = None \<longrightarrow> fst (snd (Seek_noff f noff)) = noff)"
proof (cases "noff < off f")
  case True
  let ?f = "f\<lparr>atEnd := False\<rparr>"
  obtain f' w e where c: "CopyN (fst (ghfsFile_Close ?f)) noff = (f', w, e)"
    by (cases "CopyN (fst (ghfsFile_Close ?f)) noff") auto
  with True assms(1) have s: "Seek_noff f noff = (f', w, e)"
    by (simp add: Seek_noff_def Let_def)
  note C = CopyN_result [OF c]
  show ?thesis
    using C(1) C(2) [OF assms(1)] s by auto
next
  case False
  let ?f = "f\<lparr>atEnd := False\<rparr>"
  let ?n = "int64 (noff - off f)"
  have n: "?n = noff - off f"
    using False assms by (intro int64_id) (simp add: is_int64_def)
  obtain f' w e where c: "CopyN ?f ?n = (f', w, e)"
    by (cases "CopyN ?f ?n") auto
  with False assms(1) have s: "Seek_noff f noff = (f', off f', e)"
    by (simp add: Seek_noff_def Let_def)
  note C = CopyN_result [OF c]
  have i: "is_int64 (off f')"
    using C(3) assms(4) by simp
  have "off f' = noff" if "e = None"
  proof -
    have "int64 (off f') = int64 (off ?f + ?n)"
      using C(2) False n that by simp
    then show ?thesis
      using n i assms(2) by (simp add: int64_id)
  qed
  then show ?thesis
    using C(1) s by auto
qed

subsection \<open>\<open>Readdir\<close> in the two generations\<close>

lemma Readdir_loop_entries:
  "snd (Readdir_loop sc c count ret)
     = ret @ map entryFileInfo (take (nat (count - c)) (pending sc))"
proof (induction sc c count ret rule: Readdir_loop.induct)
  case (1 sc c count ret)
  show ?case
  proof (cases "c < count")
    case False
    then show ?thesis
      by (simp add: Readdir_loop.simps [of sc])
  next
    case True
    then have n: "nat (count - c) = Suc (nat (count - (c + 1)))"
      by simp
    show ?thesis
    proof (cases "pending sc")
      case Nil
      with True show ?thesis
        by (simp add: Readdir_loop.simps [of sc] TreeScanner_Scan_def)
    next
      case (Cons e es)
      then have s: "(sc\<lparr>pending := es\<rparr>, Some e) = TreeScanner_Scan sc"
        by (simp add: TreeScanner_Scan_def)
      from "1.IH" [OF True s refl] s [symmetric] True Cons
      show ?thesis
        by (simp add: Readdir_loop.simps [of sc] n)
    qed
  qed
qed

lemma Readdir_entries:
  "fst (snd (ghfsDir_Readdir d count))
     = map entryFileInfo (take (nat count) (pending (scanner d)))"
  using Readdir_loop_entries [of "scanner d" 0 count "[]"]
  by (simp add: ghfsDir_Readdir_def split_beta)

lemma Readdir_nonpositive:
  "count \<le> 0 \<Longrightarrow> ghfsDir_Readdir d count = (d, [], map_option StoreError (Err (scanner d)))"
  by (simp add: ghfsDir_Readdir_def Readdir_loop.simps [of _ 0])

lemma Readdir_exhausted:
  "pending (scanner d) = [] \<Longrightarrow> 0 < count \<Longrightarrow>
     ghfsDir_Readdir d count =
       (d\<lparr>scanner := (scanner d)\<lparr>Err := fails (scanner d)\<rparr>\<rparr>, [],
        map_option StoreError (fails (scanner d)))"
  by (simp add: ghfsDir_Readdir_def Readdir_loop.simps [of _ 0] TreeScanner_Scan_def)

lemma git2go_Readdir_loop_all:
  "count \<le> 0 \<Longrightarrow>
     git2go_Readdir_loop es i count ret = (max i (length es), ret @ map NewFileInfo (drop i es))"
proof (induction es i count ret rule: git2go_Readdir_loop.induct)
  case (1 es i count ret)
  show ?case
  proof (cases "i < length es")
    case True
    with 1 show ?thesis
      by (simp add: git2go_Readdir_loop.simps [of es i] Cons_nth_drop_Suc [symmetric] max_def)
  next
    case False
    then show ?thesis
      by (simp add: git2go_Readdir_loop.simps [of es i] max_def)
  qed
qed

lemma git2go_Readdir_all:
  "git2go_tree d = Some es \<Longrightarrow> idx d < length es \<Longrightarrow> count \<le> 0 \<Longrightarrow>
     git2go_Readdir d count = (d\<lparr>idx := length es\<rparr>, map NewFileInfo (drop (idx d) es), None)"
  by (simp add: git2go_Readdir_def git2go_Readdir_loop_all max_def)

lemma git2go_Readdir_exhausted:
  "git2go_tree d = Some es \<Longrightarrow> length es \<le> idx d \<Longrightarrow>
     git2go_Readdir d count = (d, [], Some EOF)"
  by (simp add: git2go_Readdir_def)

subsection \<open>The handles of the example\<close>

lemma a_txt_read_eq:
  "a_txt_read = a_txt_file\<lparr>rc := Some \<lparr>rest = ''cd'', chunk = 1, close_err = None\<rparr>,
     off := 2, calls := [CallData, CallRead 3]\<rparr>"
  by (simp add: a_txt_read_def a_txt_file_def a_txt_def NewFile_def ghfsFile_Read_def
      Read_stream_def stream_Read_def int64_def)

lemma a_txt_at_end_eq: "a_txt_at_end = a_txt_file\<lparr>atEnd := True\<rparr>"
  by (simp add: a_txt_at_end_def ghfsFile_Seek_def)

section \<open>The claims\<close>

text \<open>
  Claim C1. Take a file handle whose offset is \<open>b\<close> (reads have been performed up to \<open>b\<close>;
  the handle may be in any state) and an offset \<open>a\<close> with \<open>0 \<le> a < b\<close>. After
  \<open>Seek(a, os.SEEK_SET)\<close>, reading forward to the end of data yields exactly what a
  fresh handle on the same entry yields when it is read from scratch and its first \<open>a\<close>
  bytes are dropped, whatever the buffer sizes of the two readers. The backward seek is
  \<open>io.CopyN\<close> through \<open>Read\<close> of \<open>a\<close> bytes, on the handle that \<open>Close\<close> has left without
  a stream and at offset \<open>0\<close>, the stream it had being closed.
\<close>

theorem backward_seek_content:
  assumes "0 \<le> a" and "a < off f"
  shows "ReadAll (fst (ghfsFile_Seek f a SEEK_SET)) k
           = drop (nat a) (ReadAll (NewFile (entry f) (fi f)) k')
       \<and> ghfsFile_Seek f a SEEK_SET = CopyN (fst (ghfsFile_Close (f\<lparr>atEnd := False\<rparr>))) a
       \<and> rc (fst (ghfsFile_Close (f\<lparr>atEnd := False\<rparr>))) = None
       \<and> off (fst (ghfsFile_Close (f\<lparr>atEnd := False\<rparr>))) = 0
       \<and> calls (fst (ghfsFile_Close (f\<lparr>atEnd := False\<rparr>)))
           = calls f @ (if rc f = None then [] else [CallClose])"
proof -
  let ?c = "fst (ghfsFile_Close (f\<lparr>atEnd := False\<rparr>))"
  have s: "ghfsFile_Seek f a SEEK_SET = CopyN ?c a"
    using assms by (simp add: ghfsFile_Seek_def Seek_noff_def Let_def)
  have c: "rc ?c = None" "off ?c = 0"
    "calls ?c = calls f @ (if rc f = None then [] else [CallClose])"
    by (auto simp: ghfsFile_Close_def split: option.splits)
  have e: "entry ?c = entry f" and n: "\<not> atEnd ?c"
    by (simp_all add: ghfsFile_Close_def split: option.splits)
  obtain f' w err where r: "CopyN ?c a = (f', w, err)"
    by (cases "CopyN ?c a") auto
  from CopyN_remaining [OF n r]
  have "remaining f' = drop (nat a) (remaining ?c)" and "\<not> atEnd f'"
    by simp_all
  moreover have "remaining ?c = remaining (NewFile (entry f) (fi f))"
    using c e by (simp add: remaining_def NewFile_def)
  moreover have "\<not> atEnd (NewFile (entry f) (fi f))"
    by (simp add: NewFile_def)
  ultimately have "ReadAll (fst (ghfsFile_Seek f a SEEK_SET)) k
           = drop (nat a) (ReadAll (NewFile (entry f) (fi f)) k')"
    using s r by (simp add: ReadAll_remaining)
  with s c show ?thesis
    by simp
qed

theorem backward_seek_content_witness:
  "(0::int) \<le> 1 \<and> 1 < off a_txt_read
   \<and> ReadAll (NewFile (entry a_txt_read) (fi a_txt_read)) 0 = ''abcd''
   \<and> ReadAll (fst (ghfsFile_Seek a_txt_read 1 SEEK_SET)) 7 = ''bcd''"
proof -
  have a: "(0::int) \<le> 1"
    by simp
  have b: "1 < off a_txt_read"
    by (simp add: a_txt_read_eq)
  have c: "ReadAll (NewFile (entry a_txt_read) (fi a_txt_read)) 0 = ''abcd''"
    by (simp add: ReadAll_remaining NewFile_def remaining_def a_txt_read_eq a_txt_file_def
        a_txt_def)
  from backward_seek_content [OF a b, of 7 0, THEN conjunct1] c
  have "ReadAll (fst (ghfsFile_Seek a_txt_read 1 SEEK_SET)) 7 = ''bcd''"
    by simp
  with a b c show ?thesis
    by simp
qed

text \<open>
  Claim C2, as the code has it. The claim as stated fails on a handle in the \<open>AtEnd\<close>
  state: \<open>Seek\<close> turns \<open>os.SEEK_CUR\<close> into \<open>os.SEEK_END\<close> there, and a seek that fails on a
  negative target has cleared the flag already.
\<close>

theorem seek_claim_fails_at_end:
  "atEnd a_txt_at_end \<and> off a_txt_at_end + (- 2) < 0
   \<and> snd (ghfsFile_Seek a_txt_at_end (- 2) SEEK_CUR) = (2, None)
   \<and> ghfsFile_Seek a_txt_at_end (- 1) SEEK_SET
        = (a_txt_file, 0, Some InvalidOffset)
   \<and> a_txt_file \<noteq> a_txt_at_end"
  by (simp add: a_txt_at_end_eq ghfsFile_Seek_def Seek_noff_def CopyN_def
      discard_ReadFrom.simps ghfsFile_Read_def Read_stream_def stream_Read_def int64_def
      a_txt_file_def NewFile_def a_txt_def)

text \<open>
  Claim C2, amended. With \<open>+\<close> the addition of \<open>int64\<close>, the target \<open>noff\<close> of
  \<open>Seek(offset, whence)\<close> is \<open>offset\<close> for \<open>os.SEEK_SET\<close>, \<open>off + offset\<close> for \<open>os.SEEK_CUR\<close>
  on a handle that is not \<open>AtEnd\<close>, and \<open>size + offset\<close> for \<open>os.SEEK_END\<close> and for
  \<open>os.SEEK_CUR\<close> on a handle that is \<open>AtEnd\<close>. Any other \<open>whence\<close> fails with the
  invalid-argument error and leaves the handle as it is. For the three values of
  \<open>whence\<close>, the seek fails with the invalid-offset error exactly when \<open>noff < 0\<close>, and then
  the handle is unchanged but for the \<open>AtEnd\<close> flag, which is cleared; and a seek that
  succeeds returns \<open>noff\<close>. The handle's offset and the entry's size are not negative.
\<close>

theorem seek_target_and_errors:
  assumes "is_int64 offset" and "is_int64 (off f)" and "0 \<le> off f"
    and "is_int64 (Size (entry f))" and "0 \<le> Size (entry f)"
    and "noff = (if whence = SEEK_SET then offset
                 else if whence = SEEK_CUR \<and> \<not> atEnd f then int64 (off f + offset)
                 else int64 (Size (entry f) + offset))"
    and "r = ghfsFile_Seek f offset whence"
  shows "(whence \<noteq> SEEK_SET \<and> whence \<noteq> SEEK_CUR \<and> whence \<noteq> SEEK_END
            \<longrightarrow> r = (f, 0, Some InvalidWhence))
       \<and> (whence = SEEK_SET \<or> whence = SEEK_CUR \<or> whence = SEEK_END
            \<longrightarrow> snd (snd r) \<noteq> Some InvalidWhence
              \<and> (snd (snd r) = Some InvalidOffset) = (noff < 0)
              \<and> (noff < 0 \<longrightarrow> r = (f\<lparr>atEnd := False\<rparr>, 0, Some InvalidOffset))
              \<and> (snd (snd r) = None \<longrightarrow> fst (snd r) = noff))"
proof (intro conjI impI)
  assume "whence \<noteq> SEEK_SET \<and> whence \<noteq> SEEK_CUR \<and> whence \<noteq> SEEK_END"
  then show "r = (f, 0, Some InvalidWhence)"
    using assms(7) by (simp add: ghfsFile_Seek_def)
next
  assume w: "whence = SEEK_SET \<or> whence = SEEK_CUR \<or> whence = SEEK_END"
  have i: "is_int64 noff"
    using assms(1,6) by (simp add: is_int64_int64)
  have "whence \<noteq> SEEK_SET \<and> (whence = SEEK_CUR \<longrightarrow> atEnd f) \<and> offset = 0
      \<or> r = Seek_noff f noff"
    using w assms(6,7) by (auto simp: ghfsFile_Seek_def Let_def)
  then consider (special) "whence \<noteq> SEEK_SET" "whence = SEEK_CUR \<longrightarrow> atEnd f" "offset = 0"
    | (general) "r = Seek_noff f noff"
    by blast
  then have "snd (snd r) \<noteq> Some InvalidWhence
      \<and> (snd (snd r) = Some InvalidOffset) = (noff < 0)
      \<and> (noff < 0 \<longrightarrow> r = (f\<lparr>atEnd := False\<rparr>, 0, Some InvalidOffset))
      \<and> (snd (snd r) = None \<longrightarrow> fst (snd r) = noff)"
  proof cases
    case special
    then have "r = (f\<lparr>atEnd := True\<rparr>, Size (entry f), None)"
      using w assms(7) by (auto simp: ghfsFile_Seek_def)
    moreover have "noff = Size (entry f)"
      using special w assms(4,6) by (auto simp: int64_id)
    ultimately show ?thesis
      using assms(5) by simp
  next
    case general
    show ?thesis
    proof (cases "noff < 0")
      case True
      then show ?thesis
        using general by (simp add: Seek_noff_negative)
    next
      case False
      then have "0 \<le> noff"
        by simp
      from Seek_noff_result [OF this i assms(3,2)] False general
      show ?thesis
        by auto
    qed
  qed
  then show "snd (snd r) \<noteq> Some InvalidWhence"
    and "(snd (snd r) = Some InvalidOffset) = (noff < 0)"
    and "noff < 0 \<Longrightarrow> r = (f\<lparr>atEnd := False\<rparr>, 0, Some InvalidOffset)"
    and "snd (snd r) = None \<Longrightarrow> fst (snd r) = noff"
    by simp_all
qed

theorem seek_target_and_errors_witness:
  "is_int64 3 \<and> is_int64 (off a_txt_read) \<and> 0 \<le> off a_txt_read
   \<and> is_int64 (Size (entry a_txt_read)) \<and> 0 \<le> Size (entry a_txt_read)
   \<and> snd (snd (ghfsFile_Seek a_txt_read 1 SEEK_CUR)) = None
   \<and> fst (snd (ghfsFile_Seek a_txt_read 1 SEEK_CUR)) = 3
   \<and> ghfsFile_Seek a_txt_read 1 7 = (a_txt_read, 0, Some InvalidWhence)
   \<and> int64 (off a_txt_read + (- 3)) < 0
   \<and> ghfsFile_Seek a_txt_read (- 3) SEEK_CUR
        = (a_txt_read\<lparr>atEnd := False\<rparr>, 0, Some InvalidOffset)"
proof -
  have h: "is_int64 1" "is_int64 (- 3)" "is_int64 (off a_txt_read)" "0 \<le> off a_txt_read"
    "is_int64 (Size (entry a_txt_read))" "0 \<le> Size (entry a_txt_read)" "is_int64 3"
    by (simp_all add: is_int64_def a_txt_read_eq a_txt_file_def NewFile_def a_txt_def)
  have n: "\<not> atEnd a_txt_read" "int64 (off a_txt_read + 1) = 3"
    "int64 (off a_txt_read + (- 3)) < 0"
    by (simp_all add: int64_def a_txt_read_eq a_txt_file_def NewFile_def)
  have s: "snd (snd (ghfsFile_Seek a_txt_read 1 SEEK_CUR)) = None"
    by (simp add: a_txt_read_eq ghfsFile_Seek_def Seek_noff_def CopyN_def
        discard_ReadFrom.simps ghfsFile_Read_def Read_stream_def stream_Read_def int64_def
        a_txt_file_def NewFile_def a_txt_def)
  from seek_target_and_errors [OF h(1,3,4,5,6) refl refl, of SEEK_CUR] n s
  have "fst (snd (ghfsFile_Seek a_txt_read 1 SEEK_CUR)) = 3"
    by simp
  moreover from seek_target_and_errors [OF h(1,3,4,5,6) refl refl, of 7]
  have "ghfsFile_Seek a_txt_read 1 7 = (a_txt_read, 0, Some InvalidWhence)"
    by simp
  moreover from seek_target_and_errors [OF h(2,3,4,5,6) refl refl, of SEEK_CUR] n
  have "ghfsFile_Seek a_txt_read (- 3) SEEK_CUR
        = (a_txt_read\<lparr>atEnd := False\<rparr>, 0, Some InvalidOffset)"
    by simp
  ultimately show ?thesis
    using h n s by simp
qed

text \<open>
  Claim C3. On a file handle in any state, \<open>Seek(0, os.SEEK_END)\<close> sets \<open>atEnd\<close> and returns
  the entry's \<open>Size()\<close> with no error. Nothing else of the handle changes: no stream is
  opened and none is read, so the record of calls for content is as it was.
\<close>

theorem seek_end_zero:
  "ghfsFile_Seek f 0 SEEK_END = (f\<lparr>atEnd := True\<rparr>, Size (entry f), None)
   \<and> rc (fst (ghfsFile_Seek f 0 SEEK_END)) = rc f
   \<and> off (fst (ghfsFile_Seek f 0 SEEK_END)) = off f
   \<and> calls (fst (ghfsFile_Seek f 0 SEEK_END)) = calls f"
  by (simp add: ghfsFile_Seek_def)

text \<open>
  Claim C4, where the code departs from it. \<open>Read\<close> tests \<open>f.rc == nil\<close> before it tests
  \<open>f.atEnd\<close>: on the handle that \<open>Seek(0, os.SEEK_END)\<close> leaves when no stream is open
  yet, it calls \<open>Blob().Data()\<close> and keeps the stream it gets before it returns
  \<open>(0, io.EOF)\<close>. (With a stream open, \<open>Read\<close> at the end leaves the handle alone:
  \<open>Read_at_end_open\<close>.)
\<close>

theorem Read_at_end_opens_stream:
  "a_txt_at_end = a_txt_file\<lparr>atEnd := True\<rparr>
   \<and> rc a_txt_at_end = None
   \<and> calls a_txt_at_end = []
   \<and> ghfsFile_Read a_txt_at_end 3
       = (a_txt_at_end\<lparr>rc := Some \<lparr>rest = ''abcd'', chunk = 1, close_err = None\<rparr>,
            calls := [CallData]\<rparr>, [], Some EOF)"
  by (simp add: a_txt_at_end_eq ghfsFile_Read_def Read_stream_def a_txt_file_def NewFile_def
      a_txt_def)




text \<open>
  Claim C6, as the code has it. \<open>Open\<close> hands the root tree to \<open>NewDir\<close>, which returns the
  error of \<open>tree.Scanner()\<close> when the library cannot enumerate the tree: no handle then.
\<close>

theorem open_root_fails_with_scanner:
  "Open broken_fs [] = ([CallScanner], Inl (StoreError 2))
   \<and> Open broken_fs ''/'' = ([CallScanner], Inl (StoreError 2))"
  by (simp add: Open_def NewDir_def broken_fs_def no_tree_def)

text \<open>
  Claim C6, amended. For the paths \<open>""\<close> and \<open>"/"\<close>, \<open>Open\<close> makes one call to the library,
  \<open>Scanner()\<close> on the root tree, and none to \<open>GetTreeEntryByPath\<close>. When that call
  succeeds, \<open>Open\<close> returns a directory handle over the root tree whose metadata is
  \<open>rootFileInfo\<close>: name \<open>""\<close>, size \<open>0\<close>, a directory by \<open>IsDir()\<close> and by \<open>Mode()\<close>. When
  it fails, \<open>Open\<close> returns the library's error.
\<close>

theorem open_root:
  assumes "p = [] \<or> p = ''/''"
  shows "fst (Open fs p) = [CallScanner]
       \<and> (\<forall>c. Scanner (fs_tree fs) = Inl c \<longrightarrow> snd (Open fs p) = Inl (StoreError c))
       \<and> (\<forall>sc. Scanner (fs_tree fs) = Inr sc \<longrightarrow>
            snd (Open fs p)
              = Inr (Dir \<lparr>tree = fs_tree fs, dir_fi = rootFileInfo, scanner = sc\<rparr>)
            \<and> ghfsDir_Stat \<lparr>tree = fs_tree fs, dir_fi = rootFileInfo, scanner = sc\<rparr>
              = (rootFileInfo, None))
       \<and> FileInfo_Name rootFileInfo = [] \<and> FileInfo_Size rootFileInfo = 0
       \<and> FileInfo_IsDir rootFileInfo \<and> FileInfo_Mode rootFileInfo AND ModeDir = ModeDir"
  using assms
  by (auto simp: Open_def NewDir_def ghfsDir_Stat_def ModeDir_def)

theorem open_root_witness:
  "(''/'' = [] \<or> ''/'' = ''/'')
   \<and> Scanner (fs_tree example_fs) = Inr \<lparr>pending = [a_txt, dir_entry], fails = None, Err = None\<rparr>
   \<and> Open example_fs ''/'' = ([CallScanner], Inr (Dir root_dir))
   \<and> Open example_fs [] = ([CallScanner], Inr (Dir root_dir))
   \<and> Scanner (fs_tree broken_fs) = Inl 2
   \<and> snd (Open broken_fs ''/'') = Inl (StoreError 2)"
proof -
  have s: "Scanner (fs_tree example_fs)
      = Inr \<lparr>pending = [a_txt, dir_entry], fails = None, Err = None\<rparr>"
    and t: "fs_tree example_fs = root_tree"
    by (simp_all add: example_fs_def root_tree_def)
  have "Open example_fs ''/'' = ([CallScanner], Inr (Dir root_dir))"
    using open_root [of "''/''" example_fs] s t
    by (simp add: prod_eq_iff root_dir_def)
  moreover have "Open example_fs [] = ([CallScanner], Inr (Dir root_dir))"
    using open_root [of "[]" example_fs] s t
    by (simp add: prod_eq_iff root_dir_def)
  moreover have b: "Scanner (fs_tree broken_fs) = Inl 2"
    by (simp add: broken_fs_def no_tree_def)
  moreover have "snd (Open broken_fs ''/'') = Inl (StoreError 2)"
    using open_root [of "''/''" broken_fs] b
    by simp
  ultimately show ?thesis
    using s by simp
qed

text \<open>
  Claim C7, where the code departs from it. The loop of the scanner-based \<open>Readdir\<close> runs
  while \<open>c < count\<close>, so a \<open>count\<close> that is not positive reads no entry: on the root of the
  example, \<open>Readdir(-1)\<close> returns nothing while two entries are pending. (The index-based
  \<open>Readdir\<close> of the earlier generation returns all of them: \<open>git2go_Readdir_all\<close>.)
\<close>

theorem Readdir_negative_count_returns_nothing:
  "ghfsDir_Readdir root_dir (- 1) = (root_dir, [], None)
   \<and> pending (scanner root_dir) = [a_txt, dir_entry]"
  by (simp add: Readdir_nonpositive) (simp add: root_dir_def)

text \<open>
  Claim C8, where the code departs from it. The scanner-based \<open>Readdir\<close> never returns
  \<open>io.EOF\<close>: once the two entries of the example's root are read, a further \<open>Readdir(1)\<close>
  returns no entry and a \<open>nil\<close> error. (The index-based \<open>Readdir\<close> of the earlier
  generation returns \<open>io.EOF\<close> there: \<open>git2go_Readdir_exhausted\<close>.)
\<close>

theorem Readdir_after_end_reports_no_EOF:
  "ghfsDir_Readdir root_dir 5
     = (root_dir_scanned, [entryFileInfo a_txt, entryFileInfo dir_entry], None)
   \<and> pending (scanner root_dir_scanned) = []
   \<and> ghfsDir_Readdir root_dir_scanned 1 = (root_dir_scanned, [], None)"
  by (simp add: ghfsDir_Readdir_def root_dir_scanned_def root_dir_def Readdir_loop.simps [of _ 0]
      Readdir_loop.simps [of _ 1] Readdir_loop.simps [of _ 2] TreeScanner_Scan_def)


text \<open>
  Claim C10. On a file handle in the \<open>AtEnd\<close> state, \<open>Seek(offset, os.SEEK_CUR)\<close> is
  \<open>Seek(offset, os.SEEK_END)\<close>: for \<open>offset = 0\<close> it returns the size, and otherwise its
  target is \<open>size + offset\<close>, whatever the handle's offset is.
\<close>

theorem seek_cur_at_end:
  assumes "atEnd f"
  shows "ghfsFile_Seek f offset SEEK_CUR = ghfsFile_Seek f offset SEEK_END
       \<and> ghfsFile_Seek f offset SEEK_CUR
           = (if offset = 0 then (f\<lparr>atEnd := True\<rparr>, Size (entry f), None)
              else Seek_noff f (int64 (Size (entry f) + offset)))"
  using assms by (simp add: ghfsFile_Seek_def)

theorem seek_cur_at_end_witness:
  "atEnd a_txt_at_end \<and> off a_txt_at_end = 0 \<and> Size (entry a_txt_at_end) = 4
   \<and> ghfsFile_Seek a_txt_at_end (- 1) SEEK_CUR = ghfsFile_Seek a_txt_at_end (- 1) SEEK_END
   \<and> snd (ghfsFile_Seek a_txt_at_end (- 1) SEEK_CUR) = (3, None)"
proof -
  have a: "atEnd a_txt_at_end" and b: "off a_txt_at_end = 0 \<and> Size (entry a_txt_at_end) = 4"
    by (simp_all add: a_txt_at_end_eq a_txt_file_def NewFile_def a_txt_def)
  have n: "snd (Seek_noff a_txt_at_end (int64 (Size (entry a_txt_at_end) + (- 1)))) = (3, None)"
    by (simp add: a_txt_at_end_eq Seek_noff_def CopyN_def
        discard_ReadFrom.simps ghfsFile_Read_def Read_stream_def stream_Read_def int64_def
        a_txt_file_def NewFile_def a_txt_def)
  note T = seek_cur_at_end [OF a, of "- 1"]
  have "ghfsFile_Seek a_txt_at_end (- 1) SEEK_CUR
      = Seek_noff a_txt_at_end (int64 (Size (entry a_txt_at_end) + (- 1)))"
    using T [THEN conjunct2] by simp
  then have "snd (ghfsFile_Seek a_txt_at_end (- 1) SEEK_CUR) = (3, None)"
    using n by simp
  with T [THEN conjunct1] a b show ?thesis
    by simp
qed


end
